theory Spec2Isabelle
  imports Complex_Main "HOL-Library.AList" "HOL-Library.Char_ord" "HOL-Library.List_Lexorder"
    "HOL-Library.Product_Lexorder" "HOL-Library.Word"
begin

section \<open>Bundle Maker: a shallow embedding of \<^verbatim>\<open>src/bundlemaker.py\<close>\<close>

text \<open>
  Conventions of the embedding.
  \<^item> A Python \<^verbatim>\<open>str\<close> is a \<^typ>\<open>string\<close>; characters are bytes, so the built-in string
    methods (\<^verbatim>\<open>strip\<close>, \<^verbatim>\<open>lower\<close>, \<^verbatim>\<open>isdigit\<close>, \<^verbatim>\<open>split\<close>) are modelled on ASCII.
  \<^item> A Python \<^verbatim>\<open>dict\<close> is an association list in insertion order; a real dict has
    pairwise different keys.
  \<^item> An exception is a value \<open>Exn name\<close> carrying the name of its class; code that may
    raise returns \<open>exn + 'a\<close> with \<open>Inl\<close> for the raise, and every \<^verbatim>\<open>try/except\<close>
    of the source is a case distinction on such a result.
  \<^item> Paths follow the POSIX flavour of \<^verbatim>\<open>os.path\<close> (\<^verbatim>\<open>os.sep\<close> is the slash).
  \<^item> Standard input is the finite list of the lines still to be read, each with its line
    terminator; \<^verbatim>\<open>readline\<close> returns the empty string when the list is exhausted.
  \<^item> What the program prints is recorded as a list of events, one constructor for each
    message of the interactive loop; the rendering of the screen and colours are left out.
\<close>

subsection \<open>Exceptions\<close>

datatype exn = Exn string

abbreviation EOFError :: exn where "EOFError \<equiv> Exn ''EOFError''"
abbreviation IndexError :: exn where "IndexError \<equiv> Exn ''IndexError''"
abbreviation ZeroDivisionError :: exn where "ZeroDivisionError \<equiv> Exn ''ZeroDivisionError''"
abbreviation AttributeError :: exn where "AttributeError \<equiv> Exn ''AttributeError''"

subsection \<open>Built-in string and list operations\<close>

definition isspace :: "char \<Rightarrow> bool" where
  "isspace c \<longleftrightarrow>
     c \<in> set [CHR 0x09, CHR 0x0A, CHR 0x0B, CHR 0x0C, CHR 0x0D,
              CHR 0x1C, CHR 0x1D, CHR 0x1E, CHR 0x1F, CHR 0x20]"

definition strip :: "string \<Rightarrow> string" where
  "strip s = rev (dropWhile isspace (rev (dropWhile isspace s)))"

definition lower_char :: "char \<Rightarrow> char" where
  "lower_char c =
     (case map_of (zip ''ABCDEFGHIJKLMNOPQRSTUVWXYZ'' ''abcdefghijklmnopqrstuvwxyz'') c of
        None \<Rightarrow> c
      | Some l \<Rightarrow> l)"

definition lower :: "string \<Rightarrow> string" where
  "lower s = map lower_char s"

definition isdigit :: "string \<Rightarrow> bool" where
  "isdigit s \<longleftrightarrow> s \<noteq> [] \<and> list_all (\<lambda>c. c \<in> set ''0123456789'') s"

definition digit_val :: "char \<Rightarrow> nat" where
  "digit_val c = length (takeWhile (\<lambda>d. d \<noteq> c) ''0123456789'')"

text \<open>\<^verbatim>\<open>int(s)\<close> for a string of decimal digits.\<close>

definition py_int :: "string \<Rightarrow> nat" where
  "py_int s = foldl (\<lambda>n c. 10 * n + digit_val c) 0 s"

text \<open>\<^verbatim>\<open>s.split()\<close>: the maximal runs of characters that are not whitespace.\<close>

fun split_aux :: "string \<Rightarrow> string \<Rightarrow> string list" where
  "split_aux cur [] = (if cur = [] then [] else [cur])"
| "split_aux cur (c # cs) =
     (if isspace c then (if cur = [] then split_aux [] cs else cur # split_aux [] cs)
      else split_aux (cur @ [c]) cs)"

definition split_ws :: "string \<Rightarrow> string list" where
  "split_ws s = split_aux [] s"

text \<open>\<^verbatim>\<open>str(n)\<close> for a natural number, as an f-string renders it.\<close>

fun string_of_nat :: "nat \<Rightarrow> string" where
  "string_of_nat n =
     (if n < 10 then [''0123456789'' ! n]
      else string_of_nat (n div 10) @ [''0123456789'' ! (n mod 10)])"

declare string_of_nat.simps [simp del]

text \<open>\<^verbatim>\<open>xs[i]\<close> for a Python integer: a negative index counts from the end.\<close>

definition getitem :: "'a list \<Rightarrow> int \<Rightarrow> exn + 'a" where
  "getitem xs i =
     (if 0 \<le> i \<and> i < int (length xs) then Inr (xs ! nat i)
      else if i < 0 \<and> - int (length xs) \<le> i then Inr (xs ! nat (int (length xs) + i))
      else Inl IndexError)"

subsection \<open>Configuration constants\<close>

definition BUNDLE_NAME :: string where "BUNDLE_NAME = ''bundle.txt''"
definition STATE_FILE :: string where "STATE_FILE = ''bundle_state.json''"

definition HEADER_FMT :: "string \<Rightarrow> string" where
  "HEADER_FMT path = ''=== FILE: '' @ path @ '' ==='' @ [CHR 0x0A]"

definition FOOTER_FMT :: "string \<Rightarrow> string" where
  "FOOTER_FMT path = ''=== END FILE: '' @ path @ '' ==='' @ [CHR 0x0A]"

definition SECTION_GAP :: string where "SECTION_GAP = [CHR 0x0A]"

definition SECTION_END_MARKER :: string where "SECTION_END_MARKER = [CHR 0x5C] @ ''END''"

definition MODE_AUTO :: string where "MODE_AUTO = ''auto''"
definition MODE_PASTE :: string where "MODE_PASTE = ''paste''"
definition MODE_HYBRID :: string where "MODE_HYBRID = ''hybrid''"
definition MODES :: "string list" where "MODES = [MODE_HYBRID, MODE_PASTE, MODE_AUTO]"

definition AUTO_MAX_BYTES :: nat where "AUTO_MAX_BYTES = 5 * 1024 * 1024"
definition AUTO_ENCODINGS :: "string list" where
  "AUTO_ENCODINGS = [''utf-8'', ''utf-8-sig'', ''cp949'']"

definition AUTO_SKIP_NAMES :: "string list" where
  "AUTO_SKIP_NAMES = [''.env'', ''.env.local'', ''.env.production'', ''.env.development'',
                      ''id_rsa'', ''id_dsa'', ''id_ed25519'']"

definition AUTO_SKIP_EXTS :: "string list" where
  "AUTO_SKIP_EXTS = [''pem'', ''key'', ''p12'', ''pfx'', ''der'', ''crt'', ''cer'']"

subsection \<open>\<^verbatim>\<open>next_undone_index\<close>\<close>

text \<open>
  One \<^verbatim>\<open>for i in range(i, hi): if not done[i]: return i\<close> loop of the function; the
  subscript \<^verbatim>\<open>done[i]\<close> raises outside the list.
\<close>

function scan_undone :: "bool list \<Rightarrow> int \<Rightarrow> int \<Rightarrow> exn + int option" where
  "scan_undone dn i hi =
     (if i < hi then
        (case getitem dn i of
           Inl e \<Rightarrow> Inl e
         | Inr d \<Rightarrow> if \<not> d then Inr (Some i) else scan_undone dn (i + 1) hi)
      else Inr None)"
  by pat_completeness auto
termination
  by (relation "measure (\<lambda>(dn, i, hi). nat (hi - i))") auto

declare scan_undone.simps [simp del]

definition next_undone_index :: "bool list \<Rightarrow> int \<Rightarrow> exn + int option" where
  "next_undone_index dn start =
     (case scan_undone dn start (int (length dn)) of
        Inl e \<Rightarrow> Inl e
      | Inr (Some i) \<Rightarrow> Inr (Some i)
      | Inr None \<Rightarrow> scan_undone dn 0 start)"

subsection \<open>The checkpoint record: parsed JSON\<close>

text \<open>
  What \<^verbatim>\<open>json.load\<close> returns. \<^verbatim>\<open>json.dumps\<close> followed by \<^verbatim>\<open>json.load\<close> is taken to give
  back the value written (dictionaries with string keys, lists, strings, booleans and
  integers), so the file \<^verbatim>\<open>bundle_state.json\<close> is modelled by the value it parses to.
  A float is the rational it denotes (the truthy values NaN and Infinity by any value
  other than zero).
\<close>

datatype json =
    JNull
  | JBool bool
  | JInt int
  | JFloat rat
  | JStr string
  | JList "json list"
  | JObj "(string \<times> json) list"

type_synonym dict = "(string \<times> string) list"

text \<open>\<^verbatim>\<open>d.get(k)\<close> (\<^verbatim>\<open>None\<close> for a missing key) and \<^verbatim>\<open>d.get(k, default)\<close>.\<close>

definition dict_get :: "(string \<times> json) list \<Rightarrow> string \<Rightarrow> json" where
  "dict_get kv k = (case map_of kv k of None \<Rightarrow> JNull | Some v \<Rightarrow> v)"

definition dict_get_default :: "(string \<times> json) list \<Rightarrow> string \<Rightarrow> json \<Rightarrow> json" where
  "dict_get_default kv k d = (case map_of kv k of None \<Rightarrow> d | Some v \<Rightarrow> v)"

text \<open>\<^verbatim>\<open>bool(x)\<close>.\<close>

fun truthy :: "json \<Rightarrow> bool" where
  "truthy JNull = False"
| "truthy (JBool b) = b"
| "truthy (JInt n) = (n \<noteq> 0)"
| "truthy (JFloat q) = (q \<noteq> 0)"
| "truthy (JStr s) = (s \<noteq> [])"
| "truthy (JList xs) = (xs \<noteq> [])"
| "truthy (JObj kv) = (kv \<noteq> [])"

subsection \<open>\<^verbatim>\<open>save_state\<close> and \<^verbatim>\<open>load_state\<close>\<close>

text \<open>The dictionary literal of \<^verbatim>\<open>save_state\<close>; \<open>now\<close> is the clock reading.\<close>

definition state_json ::
  "string \<Rightarrow> string list \<Rightarrow> string list \<Rightarrow> string \<Rightarrow> bool list \<Rightarrow> dict \<Rightarrow> int \<Rightarrow> bool \<Rightarrow> string
     \<Rightarrow> json" where
  "state_json now files scan_dirs_abs rel_root dn contents cursor show_remaining_only mode =
     JObj [(''generated_at'', JStr now),
           (''scan_dirs_abs'', JList (map JStr scan_dirs_abs)),
           (''rel_root'', JStr rel_root),
           (''files'', JList (map JStr files)),
           (''done'', JList (map JBool dn)),
           (''cursor'', JInt cursor),
           (''show_remaining_only'', JBool show_remaining_only),
           (''mode'', JStr mode),
           (''contents'', JObj (map (\<lambda>(k, v). (k, JStr v)) contents))]"

text \<open>
  The file \<^verbatim>\<open>bundle_state.json\<close>: \<open>None\<close> when it does not exist, \<open>Some (Inl e)\<close> when
  opening or parsing it raises \<open>e\<close>, \<open>Some (Inr j)\<close> when it parses to \<open>j\<close>.
\<close>

type_synonym state_file = "(exn + json) option"

text \<open>
  \<^verbatim>\<open>atomic_write_json\<close> either replaces the file or raises and leaves it as it was;
  \<open>write_error\<close> says which. \<^verbatim>\<open>save_state\<close> has no handler of its own.
\<close>

definition save_state ::
  "exn option \<Rightarrow> string \<Rightarrow> string list \<Rightarrow> string list \<Rightarrow> string \<Rightarrow> bool list \<Rightarrow> dict \<Rightarrow> int \<Rightarrow> bool
     \<Rightarrow> string \<Rightarrow> exn + state_file" where
  "save_state write_error now files scan_dirs_abs rel_root dn contents cursor show_remaining_only mode =
     (case write_error of
        Some e \<Rightarrow> Inl e
      | None \<Rightarrow>
          Inr (Some (Inr (state_json now files scan_dirs_abs rel_root dn contents cursor
                            show_remaining_only mode))))"

type_synonym loaded = "bool list \<times> dict \<times> int \<times> bool \<times> string"

text \<open>
  The body of the \<^verbatim>\<open>try\<close> block of \<^verbatim>\<open>load_state\<close>, after \<^verbatim>\<open>json.load\<close>. \<^verbatim>\<open>state.get\<close>
  raises \<^verbatim>\<open>AttributeError\<close> when the parsed value is not a dictionary. A boolean is an
  instance of \<^verbatim>\<open>int\<close> in Python and counts as 1 or 0.
\<close>

definition load_state_body ::
  "json \<Rightarrow> string list \<Rightarrow> string list \<Rightarrow> string \<Rightarrow> exn + loaded option" where
  "load_state_body state files scan_dirs_abs rel_root =
     (case state of
        JObj kv \<Rightarrow>
          if dict_get kv ''scan_dirs_abs'' \<noteq> JList (map JStr scan_dirs_abs) then Inr None
          else if dict_get kv ''rel_root'' \<noteq> JStr rel_root then Inr None
          else if dict_get kv ''files'' \<noteq> JList (map JStr files) then Inr None
          else
            (let dn = dict_get kv ''done'';
                 contents = dict_get kv ''contents'';
                 cursor = dict_get_default kv ''cursor'' (JInt (- 1));
                 show_remaining_only = dict_get_default kv ''show_remaining_only'' (JBool False);
                 mode = dict_get_default kv ''mode'' (JStr MODE_HYBRID)
             in case dn of
                  JList ds \<Rightarrow>
                    if length ds \<noteq> length files then Inr None
                    else
                      (case contents of
                         JObj cs \<Rightarrow>
                           (let cursor1 = (case cursor of
                                             JInt n \<Rightarrow> n
                                           | JBool b \<Rightarrow> (if b then 1 else 0)
                                           | _ \<Rightarrow> - 1);
                                show1 = (case show_remaining_only of JBool b \<Rightarrow> b | _ \<Rightarrow> False);
                                mode1 = (case mode of
                                           JStr m \<Rightarrow> if m \<in> set MODES then m else MODE_HYBRID
                                         | _ \<Rightarrow> MODE_HYBRID);
                                contents1 =
                                  List.map_filter
                                    (\<lambda>(k, v). case v of
                                               JStr t \<Rightarrow> if k \<in> set files then Some (k, t) else None
                                             | _ \<Rightarrow> None) cs
                            in Inr (Some (map truthy ds, contents1,
                                          max (- 1) (min cursor1 (int (length files) - 1)),
                                          show1, mode1)))
                       | _ \<Rightarrow> Inr None)
                | _ \<Rightarrow> Inr None)
      | _ \<Rightarrow> Inl AttributeError)"

text \<open>
  \<^verbatim>\<open>load_state\<close>: no file, no state; \<^verbatim>\<open>except Exception: return None\<close> around the rest.
\<close>

definition load_state ::
  "state_file \<Rightarrow> string list \<Rightarrow> string list \<Rightarrow> string \<Rightarrow> loaded option" where
  "load_state sf files scan_dirs_abs rel_root =
     (case sf of
        None \<Rightarrow> None
      | Some (Inl e) \<Rightarrow> None
      | Some (Inr state) \<Rightarrow>
          (case load_state_body state files scan_dirs_abs rel_root of
             Inl e \<Rightarrow> None
           | Inr r \<Rightarrow> r))"

subsection \<open>Direct read: \<^verbatim>\<open>_should_skip_autoread\<close> and \<^verbatim>\<open>auto_read_file\<close>\<close>

text \<open>
  The file system and the codecs, as the function sees them: \<^verbatim>\<open>os.path.exists\<close> (which
  never raises), \<^verbatim>\<open>os.path.getsize\<close>, opening and reading a file in binary mode, and
  \<^verbatim>\<open>bytes.decode\<close> for a named encoding; the last three may raise.
\<close>

type_synonym byte = "8 word"

record os_env =
  os_exists :: "string \<Rightarrow> bool"
  os_getsize :: "string \<Rightarrow> exn + nat"
  os_read :: "string \<Rightarrow> exn + byte list"
  os_decode :: "string \<Rightarrow> byte list \<Rightarrow> exn + string"
  os_write_error :: "exn option"
  os_now :: string

text \<open>\<^verbatim>\<open>_from_posix\<close> replaces the slash by \<^verbatim>\<open>os.sep\<close>, which is the slash.\<close>

definition from_posix :: "string \<Rightarrow> string" where
  "from_posix path = path"

text \<open>\<^verbatim>\<open>os.path.join\<close> of two components and \<^verbatim>\<open>os.path.basename\<close>.\<close>

definition path_join :: "string \<Rightarrow> string \<Rightarrow> string" where
  "path_join a b =
     (if take 1 b = ''/'' then b
      else if a = [] \<or> drop (length a - 1) a = ''/'' then a @ b
      else a @ ''/'' @ b)"

definition basename :: "string \<Rightarrow> string" where
  "basename p = rev (takeWhile (\<lambda>c. c \<noteq> CHR ''/'') (rev p))"

text \<open>
  The second component of \<^verbatim>\<open>os.path.splitext\<close> on a name without a slash: the part from
  the last dot on, when a character other than a dot stands before that dot.
\<close>

definition splitext_ext :: "string \<Rightarrow> string" where
  "splitext_ext name =
     (let after = rev (takeWhile (\<lambda>c. c \<noteq> CHR ''.'') (rev name));
          before = take (length name - length after - 1) name
      in if CHR ''.'' \<in> set name \<and> list_ex (\<lambda>c. c \<noteq> CHR ''.'') before
         then CHR ''.'' # after else [])"

definition lstrip_dots :: "string \<Rightarrow> string" where
  "lstrip_dots s = dropWhile (\<lambda>c. c = CHR ''.'') s"

definition should_skip_autoread :: "os_env \<Rightarrow> string \<Rightarrow> bool \<times> string" where
  "should_skip_autoread os abs_fp =
     (let name = basename abs_fp;
          ext = lstrip_dots (lower (splitext_ext name))
      in if name \<in> set AUTO_SKIP_NAMES then (True, ''skip-name('' @ name @ '')'')
         else if ext \<in> set AUTO_SKIP_EXTS then (True, ''skip-ext(.'' @ ext @ '')'')
         else
           (case os_getsize os abs_fp of
              Inr sz \<Rightarrow>
                if sz > AUTO_MAX_BYTES
                then (True, ''too-large('' @ string_of_nat sz @ '' bytes)'')
                else (False, [])
            | Inl e \<Rightarrow> (False, [])))"

text \<open>The loop over \<^verbatim>\<open>AUTO_ENCODINGS\<close> and the \<^verbatim>\<open>return\<close> after it.\<close>

fun try_encodings :: "os_env \<Rightarrow> string list \<Rightarrow> byte list \<Rightarrow> string option \<times> string" where
  "try_encodings os [] data = (None, ''decode-failed'')"
| "try_encodings os (enc # encs) data =
     (case os_decode os enc data of
        Inr txt \<Rightarrow> (Some txt, ''ok('' @ enc @ '')'')
      | Inl e \<Rightarrow> try_encodings os encs data)"

definition auto_read_file :: "os_env \<Rightarrow> string \<Rightarrow> string \<Rightarrow> string option \<times> string" where
  "auto_read_file os rel_root rel_posix_path =
     (let abs_fp = path_join rel_root (from_posix rel_posix_path)
      in if \<not> os_exists os abs_fp then (None, ''not-found'')
         else
           (case should_skip_autoread os abs_fp of
              (skip, why) \<Rightarrow>
                if skip then (None, why)
                else
                  (case os_read os abs_fp of
                     Inl (Exn name) \<Rightarrow> (None, ''read-failed('' @ name @ '')'')
                   | Inr data \<Rightarrow>
                       if 0 \<in> set data then (None, ''binary-detected(NULL)'')
                       else try_encodings os AUTO_ENCODINGS data)))"

subsection \<open>\<^verbatim>\<open>cycle_mode\<close>\<close>

definition cycle_mode :: "string \<Rightarrow> string" where
  "cycle_mode mode =
     (let i = (if mode \<in> set MODES then length (takeWhile (\<lambda>m. m \<noteq> mode) MODES) else 0)
      in MODES ! ((i + 1) mod length MODES))"

subsection \<open>\<^verbatim>\<open>build_bundle_text\<close>\<close>

definition endswith :: "string \<Rightarrow> string \<Rightarrow> bool" where
  "endswith s suf \<longleftrightarrow> length suf \<le> length s \<and> drop (length s - length suf) s = suf"

text \<open>One round of the loop over \<open>files\<close>: what it appends to \<open>parts\<close>.\<close>

definition bundle_step :: "dict \<Rightarrow> string list \<Rightarrow> string \<Rightarrow> string list" where
  "bundle_step contents parts path =
     (case map_of contents path of
        None \<Rightarrow> parts
      | Some body \<Rightarrow>
          (let parts1 = parts @ [HEADER_FMT path];
               parts2 = parts1 @ [body];
               parts3 = (if body \<noteq> [] \<and> \<not> endswith body [CHR 0x0A]
                         then parts2 @ [[CHR 0x0A]] else parts2);
               parts4 = parts3 @ [FOOTER_FMT path]
           in parts4 @ [SECTION_GAP]))"

text \<open>The parts appended before the loop; \<open>now\<close> is the clock reading.\<close>

definition bundle_head :: "string \<Rightarrow> string \<Rightarrow> dict \<Rightarrow> string list" where
  "bundle_head now rel_root skipped =
     (let parts1 = [''=== BUNDLE GENERATED: '' @ now @ '' ==='' @ [CHR 0x0A]];
          parts2 = parts1 @ [''=== REL_ROOT: '' @ rel_root @ '' ==='' @ [CHR 0x0A]];
          parts3 = (if skipped \<noteq> []
                    then parts2 @ [''=== SKIPPED (auto-read) ==='' @ [CHR 0x0A]]
                           @ map (\<lambda>(p, why). ''- '' @ p @ '' :: '' @ why @ [CHR 0x0A]) (sort skipped)
                           @ [[CHR 0x0A]]
                    else parts2)
      in parts3 @ [[CHR 0x0A]])"

definition build_bundle_text :: "string \<Rightarrow> string \<Rightarrow> string list \<Rightarrow> dict \<Rightarrow> dict \<Rightarrow> string" where
  "build_bundle_text now rel_root files contents skipped =
     concat (foldl (bundle_step contents) (bundle_head now rel_root skipped) files)"

subsection \<open>The interactive session: state, input and output\<close>

text \<open>One constructor for each message or prompt of the interactive part of \<^verbatim>\<open>main\<close>.\<close>

datatype event =
    Prompt_cmd
  | Ev_remaining "string list"
  | Prompt_quit
  | Ev_aborted
  | Ev_all_done
  | Ev_invalid_input
  | Ev_out_of_range
  | Prompt_overwrite string
  | Ev_cancelled
  | Ev_autoread_failed string string
  | Prompt_switch_to_paste
  | Ev_skipped
  | Ev_autoread_complete string
  | Ev_paste_complete string
  | Ev_autosaved
  | Ev_capture_begin nat nat string
  | Ev_progress nat
  | Ev_stdin_eof nat
  | Ev_captured nat string

text \<open>
  The local variables of \<^verbatim>\<open>main\<close> in its interactive part, with what the loop reads
  (standard input), prints (the events) and keeps on disk (the checkpoint file).
\<close>

record session =
  s_files :: "string list"
  s_scan_dirs_abs :: "string list"
  s_rel_root :: string
  s_done :: "bool list"
  s_contents :: dict
  s_cursor :: int
  s_show_remaining_only :: bool
  s_mode :: string
  s_next_action_override :: "string option"
  s_stdin :: "string list"
  s_out :: "event list"
  s_state_file :: state_file

definition emit :: "event \<Rightarrow> session \<Rightarrow> session" where
  "emit ev s = s\<lparr>s_out := s_out s @ [ev]\<rparr>"

text \<open>\<^verbatim>\<open>sys.stdin.readline()\<close>: the next line, or the empty string at the end of the input.\<close>

definition readline :: "session \<Rightarrow> string \<times> session" where
  "readline s =
     (case s_stdin s of
        [] \<Rightarrow> ([], s)
      | l # ls \<Rightarrow> (l, s\<lparr>s_stdin := ls\<rparr>))"

text \<open>
  \<^verbatim>\<open>input(prompt)\<close>: prints the prompt, reads a line and drops its newline; \<open>None\<close>
  stands for the \<^verbatim>\<open>EOFError\<close> it raises at the end of the input.
\<close>

definition py_input :: "event \<Rightarrow> session \<Rightarrow> string option \<times> session" where
  "py_input prompt s =
     (case readline (emit prompt s) of
        (l, s1) \<Rightarrow>
          if l = [] then (None, s1)
          else (Some (if endswith l [CHR 0x0A] then butlast l else l), s1))"

definition read_cmd :: "session \<Rightarrow> string \<times> session" where
  "read_cmd s =
     (case py_input Prompt_cmd s of
        (Some l, s1) \<Rightarrow> (strip l, s1)
      | (None, s1) \<Rightarrow> (''q'', s1))"

definition ask_yes_no :: "event \<Rightarrow> bool \<Rightarrow> session \<Rightarrow> bool \<times> session" where
  "ask_yes_no prompt default_no s =
     (case py_input prompt s of
        (None, s1) \<Rightarrow> (False, s1)
      | (Some l, s1) \<Rightarrow>
          (let ans = lower (strip l)
           in if ans \<in> set [''y'', ''yes''] then (True, s1)
              else if ans \<in> set [''n'', ''no''] then (False, s1)
              else (\<not> default_no, s1)))"

subsection \<open>\<^verbatim>\<open>capture_section\<close>\<close>

text \<open>
  The \<^verbatim>\<open>while True\<close> loop, run on the lines that standard input still holds:
  \<open>ls\<close> is \<^verbatim>\<open>lines\<close>, \<open>n\<close> is \<^verbatim>\<open>line_count\<close>, \<open>evs\<close> what was printed so far. It returns them
  with the input left over. The progress step is always the default, 50.
\<close>

fun capture_loop ::
  "string \<Rightarrow> string list \<Rightarrow> string list \<Rightarrow> nat \<Rightarrow> event list
     \<Rightarrow> string list \<times> event list \<times> string list" where
  "capture_loop path [] ls n evs = (ls, evs @ [Ev_stdin_eof n], [])"
| "capture_loop path (line # rest) ls n evs =
     (if line = [] then (ls, evs @ [Ev_stdin_eof n], rest)
      else if strip line = SECTION_END_MARKER then (ls, evs @ [Ev_captured n path], rest)
      else capture_loop path rest (ls @ [line]) (n + 1)
             (if (n + 1) mod 50 = 0 then evs @ [Ev_progress (n + 1)] else evs))"

definition capture_section :: "string \<Rightarrow> nat \<Rightarrow> nat \<Rightarrow> session \<Rightarrow> string \<times> session" where
  "capture_section path index n_total s =
     (case capture_loop path (s_stdin s) [] 0 [Ev_capture_begin index n_total path] of
        (ls, evs, rest) \<Rightarrow> (concat ls, s\<lparr>s_stdin := rest, s_out := s_out s @ evs\<rparr>))"

subsection \<open>The interactive loop of \<^verbatim>\<open>main\<close>\<close>

text \<open>
  One round of \<^verbatim>\<open>while True\<close> either goes on to the next round (\<^verbatim>\<open>continue\<close>, or the end
  of the body) or leaves the loop (\<^verbatim>\<open>break\<close>); an exception that no handler of the body
  catches ends the run. The interrupt signal is not modelled.
\<close>

datatype ctl = Continue | Break

text \<open>\<^verbatim>\<open>start = (cursor + 1) % len(done) if cursor >= 0 else 0\<close>\<close>

definition advance_start :: "int \<Rightarrow> nat \<Rightarrow> exn + int" where
  "advance_start cursor n =
     (if cursor \<ge> 0
      then (if n = 0 then Inl ZeroDivisionError else Inr ((cursor + 1) mod int n))
      else Inr 0)"

text \<open>
  From the comment \<^verbatim>\<open>'a 12' / 'p 12'\<close> to the assignment \<^verbatim>\<open>idx = int(cmd)\<close>: the
  action and index a command stands for, or the message printed before \<^verbatim>\<open>continue\<close>.
\<close>

definition select_entry :: "session \<Rightarrow> string \<Rightarrow> exn + (event + string option \<times> int)" where
  "select_entry s cmd =
     (let parts = split_ws cmd
      in if length parts = 2 \<and> lower (parts ! 0) \<in> set [''a'', ''p''] \<and> isdigit (parts ! 1)
         then Inr (Inr (Some (lower (parts ! 0)), int (py_int (parts ! 1))))
         else if cmd = [] then
           (case advance_start (s_cursor s) (length (s_done s)) of
              Inl e \<Rightarrow> Inl e
            | Inr start \<Rightarrow>
                (case next_undone_index (s_done s) start of
                   Inl e \<Rightarrow> Inl e
                 | Inr None \<Rightarrow> Inr (Inl Ev_all_done)
                 | Inr (Some i) \<Rightarrow> Inr (Inr (None, i))))
         else if \<not> isdigit cmd then Inr (Inl Ev_invalid_input)
         else Inr (Inr (None, int (py_int cmd))))"

text \<open>\<^verbatim>\<open>Decide the action for this file\<close>: the branches that assign \<^verbatim>\<open>action\<close>.\<close>

definition effective_action :: "string option \<Rightarrow> string option \<Rightarrow> string \<Rightarrow> string" where
  "effective_action action override mode =
     (case action of
        Some a \<Rightarrow> a
      | None \<Rightarrow>
          (case override of
             Some a \<Rightarrow> a
           | None \<Rightarrow> if mode = MODE_PASTE then ''p'' else ''a''))"

text \<open>The call \<^verbatim>\<open>save_state(files, scan_dirs_abs, rel_root, done, contents, ...)\<close> of the loop.\<close>

definition save_session :: "os_env \<Rightarrow> session \<Rightarrow> exn + session" where
  "save_session os s =
     (case save_state (os_write_error os) (os_now os) (s_files s) (s_scan_dirs_abs s)
             (s_rel_root s) (s_done s) (s_contents s) (s_cursor s) (s_show_remaining_only s)
             (s_mode s) of
        Inl e \<Rightarrow> Inl e
      | Inr sf \<Rightarrow> Inr (s\<lparr>s_state_file := sf\<rparr>))"

text \<open>
  The three assignments and the message that end both branches of \<^verbatim>\<open>Execute action\<close>,
  and the autosave after them.
\<close>

definition store_and_save ::
  "os_env \<Rightarrow> session \<Rightarrow> nat \<Rightarrow> string \<Rightarrow> string \<Rightarrow> event \<Rightarrow> exn + ctl \<times> session" where
  "store_and_save os s idx path content ev =
     (let s1 = s\<lparr>s_contents := AList.update path content (s_contents s)\<rparr>;
          s2 = s1\<lparr>s_done := (s_done s1)[idx := True]\<rparr>;
          s3 = s2\<lparr>s_cursor := int idx\<rparr>;
          s4 = emit ev s3
      in case save_session os s4 of
           Inl e \<Rightarrow> Inl e
         | Inr s5 \<Rightarrow> Inr (Continue, emit Ev_autosaved s5))"

text \<open>\<^verbatim>\<open>Execute action\<close>, for the action decided and an index inside both lists.\<close>

definition execute_action :: "os_env \<Rightarrow> session \<Rightarrow> string \<Rightarrow> nat \<Rightarrow> exn + ctl \<times> session" where
  "execute_action os s action idx =
     (let path = s_files s ! idx
      in if action = ''a'' then
           (case auto_read_file os (s_rel_root s) path of
              (None, why) \<Rightarrow>
                (let s1 = emit (Ev_autoread_failed path why) s
                 in if s_mode s1 = MODE_HYBRID then
                      (case ask_yes_no Prompt_switch_to_paste True s1 of
                         (yes, s2) \<Rightarrow>
                           if yes then
                             (case capture_section path idx (length (s_files s2)) s2 of
                                (content, s3) \<Rightarrow>
                                  store_and_save os s3 idx path content (Ev_autoread_complete path))
                           else Inr (Continue, emit Ev_skipped s2))
                    else Inr (Continue, s1))
            | (Some content, why) \<Rightarrow>
                store_and_save os s idx path content (Ev_autoread_complete path))
         else
           (case capture_section path idx (length (s_files s)) s of
              (content, s1) \<Rightarrow> store_and_save os s1 idx path content (Ev_paste_complete path)))"

text \<open>
  From \<^verbatim>\<open>path = files[idx]\<close> on, for an index inside \<open>files\<close>: the confirmation before an
  entry that is done is overwritten, the action, and the reset of the one-shot override.
  \<^verbatim>\<open>done[idx]\<close> raises when \<open>done\<close> is shorter than \<open>files\<close>.
\<close>

definition acquire_entry ::
  "os_env \<Rightarrow> session \<Rightarrow> string option \<Rightarrow> nat \<Rightarrow> exn + ctl \<times> session" where
  "acquire_entry os s action idx =
     (let path = s_files s ! idx
      in if idx \<ge> length (s_done s) then Inl IndexError
         else
           (case (if s_done s ! idx then ask_yes_no (Prompt_overwrite path) True s
                  else (True, s)) of
              (ok, s1) \<Rightarrow>
                if \<not> ok then Inr (Continue, emit Ev_cancelled s1)
                else
                  (let act = effective_action action (s_next_action_override s1) (s_mode s1);
                       s2 = s1\<lparr>s_next_action_override := None\<rparr>
                   in execute_action os s2 act idx)))"

text \<open>The command \<^verbatim>\<open>q\<close>.\<close>

definition quit_cmd :: "session \<Rightarrow> ctl \<times> session" where
  "quit_cmd s =
     (let remaining = map fst (filter (\<lambda>(p, d). \<not> d) (zip (s_files s) (s_done s)))
      in if remaining \<noteq> [] then
           (case ask_yes_no Prompt_quit True (emit (Ev_remaining remaining) s) of
              (yes, s1) \<Rightarrow> if \<not> yes then (Continue, emit Ev_aborted s1) else (Break, s1))
         else (Break, s))"

text \<open>The body of the loop; the screen it prints first is left out.\<close>

definition step :: "os_env \<Rightarrow> session \<Rightarrow> exn + ctl \<times> session" where
  "step os s0 =
     (case read_cmd s0 of
        (cmd, s) \<Rightarrow>
          if lower cmd = ''q'' then Inr (quit_cmd s)
          else if lower cmd = ''r'' then
            (case save_session os (s\<lparr>s_show_remaining_only := \<not> s_show_remaining_only s\<rparr>) of
               Inl e \<Rightarrow> Inl e
             | Inr s1 \<Rightarrow> Inr (Continue, s1))
          else if lower cmd = ''m'' then
            (case save_session os (s\<lparr>s_mode := cycle_mode (s_mode s)\<rparr>) of
               Inl e \<Rightarrow> Inl e
             | Inr s1 \<Rightarrow> Inr (Continue, s1))
          else if lower cmd = ''a'' then Inr (Continue, s\<lparr>s_next_action_override := Some ''a''\<rparr>)
          else if lower cmd = ''p'' then Inr (Continue, s\<lparr>s_next_action_override := Some ''p''\<rparr>)
          else
            (case select_entry s cmd of
               Inl e \<Rightarrow> Inl e
             | Inr (Inl ev) \<Rightarrow> Inr (Continue, emit ev s)
             | Inr (Inr (action, idx)) \<Rightarrow>
                 if idx < 0 \<or> idx \<ge> int (length (s_files s))
                 then Inr (Continue, emit Ev_out_of_range s)
                 else acquire_entry os s action (nat idx)))"

text \<open>
  The start of the interactive part: the fresh values of the variables, replaced by the
  loaded ones when \<^verbatim>\<open>load_state\<close> returns a state. The mode chosen for this run is kept.
\<close>

definition start_session ::
  "string list \<Rightarrow> string list \<Rightarrow> string \<Rightarrow> string \<Rightarrow> string list \<Rightarrow> state_file \<Rightarrow> session" where
  "start_session files scan_dirs_abs rel_root mode input sf =
     (let fresh = \<lparr>s_files = files, s_scan_dirs_abs = scan_dirs_abs, s_rel_root = rel_root,
                   s_done = replicate (length files) False, s_contents = [], s_cursor = - 1,
                   s_show_remaining_only = False, s_mode = mode,
                   s_next_action_override = None, s_stdin = input, s_out = [],
                   s_state_file = sf\<rparr>
      in case load_state sf files scan_dirs_abs rel_root of
           None \<Rightarrow> fresh
         | Some (dn, contents, cursor, show_remaining_only, saved_mode) \<Rightarrow>
             fresh\<lparr>s_done := dn, s_contents := contents, s_cursor := cursor,
                   s_show_remaining_only := show_remaining_only\<rparr>)"

subsection \<open>Notions used in the statements\<close>

text \<open>
  The order in which the advance command looks at the entries: forward from \<open>start\<close> to
  the end of the list, then from the beginning up to \<open>start\<close>; the first pending entry in
  that order; and the index after the cursor, 0 when the cursor is unset (negative).
\<close>

definition circular_scan :: "nat \<Rightarrow> nat \<Rightarrow> nat list" where
  "circular_scan start n = [start..<n] @ [0..<start]"

definition first_pending_from :: "bool list \<Rightarrow> nat \<Rightarrow> nat option" where
  "first_pending_from dn start = find (\<lambda>i. \<not> dn ! i) (circular_scan start (length dn))"

definition scan_start :: "int \<Rightarrow> nat \<Rightarrow> nat" where
  "scan_start cursor n = (if cursor \<ge> 0 then nat ((cursor + 1) mod int n) else 0)"

subsection \<open>Example values\<close>

text \<open>
  A small project under \<^verbatim>\<open>/proj\<close>: a text file, a file with a null byte, sensitive files,
  a file over the size limit, one that cannot be read, one that no encoding decodes, one
  whose size cannot be taken, and one that only the last encoding decodes.
\<close>

definition ex_os :: os_env where
  "ex_os =
     \<lparr>os_exists = (\<lambda>p. p \<in> set [''/proj/a.py'', ''/proj/b.sql'', ''/proj/.env'',
                                     ''/proj/cert.PEM'', ''/proj/big.py'', ''/proj/locked.py'',
                                     ''/proj/bad.py'', ''/proj/stat.py'', ''/proj/kr.py'']),
      os_getsize = (\<lambda>p. if p = ''/proj/big.py'' then Inr 6000000
                         else if p = ''/proj/stat.py'' then Inl (Exn ''PermissionError'')
                         else Inr 2),
      os_read = (\<lambda>p. if p = ''/proj/a.py'' then Inr [0x58, 0x0A]
                      else if p = ''/proj/b.sql'' then Inr [0x59, 0x00]
                      else if p = ''/proj/locked.py'' then Inl (Exn ''PermissionError'')
                      else if p = ''/proj/bad.py'' then Inr [0xFF]
                      else if p = ''/proj/kr.py'' then Inr [0xB0, 0xA1]
                      else if p = ''/proj/stat.py'' then Inr [0x5A]
                      else Inl (Exn ''FileNotFoundError'')),
      os_decode = (\<lambda>enc data. if data = [0x58, 0x0A] then Inr (''X'' @ [CHR 0x0A])
                             else if data = [0x5A] then Inr ''Z''
                             else if data = [0xB0, 0xA1] \<and> enc = ''cp949''
                             then Inr [CHR 0xEA, CHR 0xB0, CHR 0x80]
                             else Inl (Exn ''UnicodeDecodeError'')),
      os_write_error = None,
      os_now = ''2026-01-01T00:00:00''\<rparr>"

definition ex_session :: session where
  "ex_session =
     \<lparr>s_files = [''a.py'', ''b.sql'', ''c.py''], s_scan_dirs_abs = [''/proj''],
      s_rel_root = ''/proj'', s_done = [False, True, True],
      s_contents = [(''b.sql'', ''Y''), (''c.py'', [])], s_cursor = 1,
      s_show_remaining_only = False, s_mode = MODE_HYBRID, s_next_action_override = None,
      s_stdin = [[CHR 0x0A]], s_out = [], s_state_file = None\<rparr>"


text \<open>
  One group of the bundle for a path and its content: as the specification words it (the
  content always ends with a line terminator, one being appended when it is missing), and
  as the program emits it (a terminator is appended only to content that is not empty).
  The body of the bundle is the groups of the paths that have content, in the order of
  the inventory. \<open>skip_line\<close> is one line of the skip block.
\<close>

definition group_as_claimed :: "string \<Rightarrow> string \<Rightarrow> string" where
  "group_as_claimed path body =
     HEADER_FMT path @ (if endswith body [CHR 0x0A] then body else body @ [CHR 0x0A])
       @ FOOTER_FMT path @ SECTION_GAP"

definition group_emitted :: "string \<Rightarrow> string \<Rightarrow> string" where
  "group_emitted path body =
     HEADER_FMT path @ body @ (if body \<noteq> [] \<and> \<not> endswith body [CHR 0x0A] then [CHR 0x0A] else [])
       @ FOOTER_FMT path @ SECTION_GAP"

definition bundle_body :: "(string \<Rightarrow> string \<Rightarrow> string) \<Rightarrow> string list \<Rightarrow> dict \<Rightarrow> string" where
  "bundle_body grp files contents =
     concat (map (\<lambda>path. case map_of contents path of None \<Rightarrow> [] | Some body \<Rightarrow> grp path body)
               files)"

definition skip_line :: "string \<times> string \<Rightarrow> string" where
  "skip_line entry = ''- '' @ fst entry @ '' :: '' @ snd entry @ [CHR 0x0A]"





text \<open>
  What makes a parsed checkpoint record usable for the current inventory, scan roots and
  common root, and the values \<^verbatim>\<open>load_state\<close> gives the fields it does not insist on.
\<close>

definition usable_record :: "(string \<times> json) list \<Rightarrow> string list \<Rightarrow> string list \<Rightarrow> string \<Rightarrow> bool" where
  "usable_record kv files scan_dirs_abs rel_root \<longleftrightarrow>
     dict_get kv ''scan_dirs_abs'' = JList (map JStr scan_dirs_abs)
     \<and> dict_get kv ''rel_root'' = JStr rel_root
     \<and> dict_get kv ''files'' = JList (map JStr files)
     \<and> (case dict_get kv ''done'' of JList ds \<Rightarrow> length ds = length files | _ \<Rightarrow> False)
     \<and> (case dict_get kv ''contents'' of JObj cs \<Rightarrow> True | _ \<Rightarrow> False)"

definition cursor_or_default :: "(string \<times> json) list \<Rightarrow> int" where
  "cursor_or_default kv =
     (case map_of kv ''cursor'' of
        Some (JInt n) \<Rightarrow> n
      | Some (JBool b) \<Rightarrow> (if b then 1 else 0)
      | _ \<Rightarrow> - 1)"

definition filter_or_default :: "(string \<times> json) list \<Rightarrow> bool" where
  "filter_or_default kv = (case map_of kv ''show_remaining_only'' of Some (JBool b) \<Rightarrow> b | _ \<Rightarrow> False)"

definition mode_or_default :: "(string \<times> json) list \<Rightarrow> string" where
  "mode_or_default kv =
     (case map_of kv ''mode'' of
        Some (JStr m) \<Rightarrow> if m \<in> set MODES then m else MODE_HYBRID
      | _ \<Rightarrow> MODE_HYBRID)"

definition kept_contents :: "string list \<Rightarrow> (string \<times> json) list \<Rightarrow> dict" where
  "kept_contents files cs = concat (map (\<lambda>(k, v). case v of JStr t \<Rightarrow> if k \<in> set files then [(k, t)] else [] | _ \<Rightarrow> []) cs)"

definition clamp_cursor :: "nat \<Rightarrow> int \<Rightarrow> int" where
  "clamp_cursor n c = (if c < - 1 then - 1 else if c > int n - 1 then int n - 1 else c)"

definition ex_partial_record :: json where
  "ex_partial_record =
     JObj [(''scan_dirs_abs'', JList [JStr ''/proj'']), (''rel_root'', JStr ''/proj''),
           (''files'', JList [JStr ''a.py'', JStr ''b.sql'']),
           (''done'', JList [JBool True, JInt 0]),
           (''show_remaining_only'', JStr ''yes''), (''mode'', JStr ''turbo''),
           (''contents'', JObj [(''a.py'', JStr ''X''), (''b.sql'', JInt 7), (''zzz.py'', JStr ''Q'')])]"

text \<open>
  The operator's next line says yes: trimmed and in lower case it is \<^verbatim>\<open>y\<close> or \<^verbatim>\<open>yes\<close>. The
  end of the input and any other line count as no.
\<close>

definition answers_yes :: "string list \<Rightarrow> bool" where
  "answers_yes input =
     (case input of [] \<Rightarrow> False | line # rest \<Rightarrow> lower (strip line) \<in> set [''y'', ''yes''])"

text \<open>A session that differs from another one only in the input left and the output.\<close>

definition io_only :: "session \<Rightarrow> session \<Rightarrow> bool" where
  "io_only s s' \<longleftrightarrow> (\<exists>i out. s' = s\<lparr>s_stdin := i, s_out := out\<rparr>)"

section \<open>Verified properties\<close>

subsection \<open>Manual capture\<close>






subsection \<open>The advance command\<close>

lemma find_append_cases:
  "find P (xs @ ys) = (case find P xs of None \<Rightarrow> find P ys | Some x \<Rightarrow> Some x)"
  by (induction xs) auto

lemma scan_undone_upt:
  "b \<le> length dn \<Longrightarrow>
   scan_undone dn (int a) (int b) = Inr (map_option int (find (\<lambda>k. \<not> dn ! k) [a..<b]))"
proof (induction "b - a" arbitrary: a)
  case 0
  then show ?case by (simp add: scan_undone.simps)
next
  case (Suc d)
  then have ab: "a < b" and d: "d = b - Suc a" by linarith+
  have step: "scan_undone dn (int (Suc a)) (int b) =
      Inr (map_option int (find (\<lambda>k. \<not> dn ! k) [Suc a..<b]))"
    using Suc.hyps(1)[OF d Suc.prems] .
  have g: "getitem dn (int a) = Inr (dn ! a)"
    using ab Suc.prems by (simp add: getitem_def)
  have upt: "[a..<b] = a # [Suc a..<b]" using ab by (simp add: upt_conv_Cons)
  have step': "scan_undone dn (int a + 1) (int b) =
      Inr (map_option int (find (\<lambda>k. \<not> dn ! k) [Suc a..<b]))"
    using step by (simp add: add.commute)
  show ?case
    using ab g step' by (subst scan_undone.simps) (simp add: upt)
qed

lemma next_undone_index_circular:
  assumes "start \<le> length dn"
  shows "next_undone_index dn (int start) =
     Inr (map_option int (find (\<lambda>k. \<not> dn ! k) ([start..<length dn] @ [0..<start])))"
proof -
  have a: "scan_undone dn (int start) (int (length dn)) =
      Inr (map_option int (find (\<lambda>k. \<not> dn ! k) [start..<length dn]))"
    by (rule scan_undone_upt) simp
  have b: "scan_undone dn 0 (int start) =
      Inr (map_option int (find (\<lambda>k. \<not> dn ! k) [0..<start]))"
    using scan_undone_upt[of start dn 0] assms by simp
  show ?thesis
    unfolding next_undone_index_def a find_append_cases using b
    by (cases "find (\<lambda>k. \<not> dn ! k) [start..<length dn]") simp_all
qed

lemma strip_eq_Nil_iff: "strip l = [] \<longleftrightarrow> (\<forall>c\<in>set l. isspace c)"
proof
  assume "strip l = []"
  then have "dropWhile isspace (rev (dropWhile isspace l)) = []" by (simp add: strip_def)
  then have all: "\<forall>c\<in>set (dropWhile isspace l). isspace c"
    by (simp add: dropWhile_eq_Nil_conv)
  have "dropWhile isspace l = []"
  proof (rule ccontr)
    assume ne: "dropWhile isspace l \<noteq> []"
    then have "\<not> isspace (hd (dropWhile isspace l))" by (rule hd_dropWhile)
    moreover have "hd (dropWhile isspace l) \<in> set (dropWhile isspace l)" using ne by simp
    ultimately show False using all by blast
  qed
  then show "\<forall>c\<in>set l. isspace c" by (simp add: dropWhile_eq_Nil_conv)
next
  assume "\<forall>c\<in>set l. isspace c"
  then have d: "dropWhile isspace l = []" by (simp add: dropWhile_eq_Nil_conv)
  show "strip l = []" unfolding strip_def d by simp
qed

lemma read_cmd_blank:
  assumes "s_stdin s = line # rest" "line \<noteq> []" "strip line = []"
  shows "read_cmd s = ([], s\<lparr>s_stdin := rest, s_out := s_out s @ [Prompt_cmd]\<rparr>)"
proof -
  have "\<forall>c\<in>set line. isspace c" using assms(3) by (simp add: strip_eq_Nil_iff)
  then have "\<forall>c\<in>set (butlast line). isspace c" by (meson in_set_butlastD)
  then have "strip (butlast line) = []" by (simp add: strip_eq_Nil_iff)
  then show ?thesis
    using assms by (simp add: read_cmd_def py_input_def readline_def emit_def)
qed

lemma select_entry_advance:
  assumes "s_done s \<noteq> [] \<or> s_cursor s < 0"
  shows "select_entry s [] =
     Inr (case first_pending_from (s_done s) (scan_start (s_cursor s) (length (s_done s))) of
            None \<Rightarrow> Inl Ev_all_done
          | Some i \<Rightarrow> Inr (None, int i))"
proof -
  let ?n = "length (s_done s)"
  let ?start = "scan_start (s_cursor s) ?n"
  have le: "?start \<le> ?n"
    using assms by (auto simp: scan_start_def nat_le_iff intro: less_imp_le)
  have adv: "advance_start (s_cursor s) ?n = Inr (int ?start)"
    using assms by (auto simp: advance_start_def scan_start_def)
  show ?thesis
    unfolding select_entry_def
    using adv next_undone_index_circular[OF le]
    by (simp add: split_ws_def first_pending_from_def circular_scan_def split: option.splits)
qed

text \<open>
  Claim C6. For a list of flags that is not empty (or an unset cursor), the empty command
  selects the first pending entry in the circular order that starts after the cursor, at 0
  when the cursor is unset. When no entry is pending, the round prints that all files are
  done and the loop goes on: nothing is raised and nothing but the input and the output
  changes. When an entry is pending, the round goes on to acquire exactly that entry.
\<close>

theorem advance_selects_next_pending:
  assumes "s_done s \<noteq> [] \<or> s_cursor s < 0"
  shows "select_entry s [] =
           Inr (case first_pending_from (s_done s) (scan_start (s_cursor s) (length (s_done s))) of
                  None \<Rightarrow> Inl Ev_all_done
                | Some i \<Rightarrow> Inr (None, int i))
       \<and> (\<forall>line rest.
            s_stdin s = line # rest \<and> line \<noteq> [] \<and> strip line = [] \<and>
            first_pending_from (s_done s) (scan_start (s_cursor s) (length (s_done s))) = None
            \<longrightarrow> step os s = Inr (Continue, s\<lparr>s_stdin := rest, s_out := s_out s @ [Prompt_cmd, Ev_all_done]\<rparr>))
       \<and> (\<forall>line rest i.
            s_stdin s = line # rest \<and> line \<noteq> [] \<and> strip line = [] \<and>
            first_pending_from (s_done s) (scan_start (s_cursor s) (length (s_done s))) = Some i \<and>
            i < length (s_files s)
            \<longrightarrow> step os s =
                  acquire_entry os (s\<lparr>s_stdin := rest, s_out := s_out s @ [Prompt_cmd]\<rparr>) None i)"
proof (intro conjI allI impI)
  show "select_entry s [] =
           Inr (case first_pending_from (s_done s) (scan_start (s_cursor s) (length (s_done s))) of
                  None \<Rightarrow> Inl Ev_all_done
                | Some i \<Rightarrow> Inr (None, int i))"
    by (rule select_entry_advance[OF assms])
next
  fix line rest
  assume h: "s_stdin s = line # rest \<and> line \<noteq> [] \<and> strip line = [] \<and>
            first_pending_from (s_done s) (scan_start (s_cursor s) (length (s_done s))) = None"
  let ?s1 = "s\<lparr>s_stdin := rest, s_out := s_out s @ [Prompt_cmd]\<rparr>"
  have rc: "read_cmd s = ([], ?s1)" using h by (simp add: read_cmd_blank)
  have a1: "s_done ?s1 \<noteq> [] \<or> s_cursor ?s1 < 0" using assms by simp
  have sel: "select_entry ?s1 [] = Inr (Inl Ev_all_done)"
    using select_entry_advance[OF a1] h by simp
  show "step os s = Inr (Continue, s\<lparr>s_stdin := rest, s_out := s_out s @ [Prompt_cmd, Ev_all_done]\<rparr>)"
    unfolding step_def rc using sel by (simp add: lower_def emit_def)
next
  fix line rest i
  assume h: "s_stdin s = line # rest \<and> line \<noteq> [] \<and> strip line = [] \<and>
            first_pending_from (s_done s) (scan_start (s_cursor s) (length (s_done s))) = Some i \<and>
            i < length (s_files s)"
  let ?s1 = "s\<lparr>s_stdin := rest, s_out := s_out s @ [Prompt_cmd]\<rparr>"
  have rc: "read_cmd s = ([], ?s1)" using h by (simp add: read_cmd_blank)
  have a1: "s_done ?s1 \<noteq> [] \<or> s_cursor ?s1 < 0" using assms by simp
  have sel: "select_entry ?s1 [] = Inr (Inr (None, int i))"
    using select_entry_advance[OF a1] h by simp
  show "step os s = acquire_entry os ?s1 None i"
    unfolding step_def rc using sel h by (simp add: lower_def)
qed

theorem advance_selects_next_pending_witness:
  "s_done ex_session \<noteq> []
   \<and> select_entry ex_session [] = Inr (Inr (None, 0))
   \<and> step ex_os (ex_session\<lparr>s_done := [True, True, True]\<rparr>) =
       Inr (Continue, ex_session\<lparr>s_done := [True, True, True], s_stdin := [],
                                 s_out := [Prompt_cmd, Ev_all_done]\<rparr>)"
proof -
  have h: "s_done ex_session \<noteq> [] \<or> s_cursor ex_session < 0"
    by (simp add: ex_session_def)
  have h2: "s_done (ex_session\<lparr>s_done := [True, True, True]\<rparr>) \<noteq> []
       \<or> s_cursor (ex_session\<lparr>s_done := [True, True, True]\<rparr>) < 0"
    by simp
  have a: "select_entry ex_session [] = Inr (Inr (None, 0))"
    using advance_selects_next_pending[OF h, of ex_os]
    by (simp add: ex_session_def first_pending_from_def circular_scan_def scan_start_def eval_nat_numeral)
  have b: "step ex_os (ex_session\<lparr>s_done := [True, True, True]\<rparr>) =
       Inr (Continue, ex_session\<lparr>s_done := [True, True, True], s_stdin := [],
                                 s_out := [Prompt_cmd, Ev_all_done]\<rparr>)"
    using advance_selects_next_pending[OF h2, of ex_os]
    by (simp add: ex_session_def first_pending_from_def circular_scan_def scan_start_def eval_nat_numeral
          strip_def isspace_def)
  show ?thesis using a b by (simp add: ex_session_def)
qed

subsection \<open>Bundle assembly\<close>

lemma bundle_step_concat:
  "concat (bundle_step contents parts path) =
     concat parts @ (case map_of contents path of None \<Rightarrow> [] | Some body \<Rightarrow> group_emitted path body)"
  by (simp add: bundle_step_def group_emitted_def Let_def split: option.splits)

lemma bundle_foldl_concat:
  "concat (foldl (bundle_step contents) parts files) =
     concat parts @ bundle_body group_emitted files contents"
proof (induction files arbitrary: parts)
  case Nil
  then show ?case by (simp add: bundle_body_def)
next
  case (Cons path files)
  show ?case
    by (simp add: Cons.IH bundle_step_concat bundle_body_def)
qed

lemma bundle_head_skipped:
  "skipped \<noteq> [] \<Longrightarrow>
   concat (bundle_head now rel_root skipped) =
     ''=== BUNDLE GENERATED: '' @ now @ '' ==='' @ [CHR 0x0A]
     @ ''=== REL_ROOT: '' @ rel_root @ '' ==='' @ [CHR 0x0A]
     @ ''=== SKIPPED (auto-read) ==='' @ [CHR 0x0A]
     @ concat (map skip_line (sort skipped)) @ [CHR 0x0A] @ [CHR 0x0A]"
proof -
  have "(\<lambda>(p, why). ''- '' @ p @ '' :: '' @ why @ [CHR 0x0A]) = skip_line"
    by (auto simp: skip_line_def fun_eq_iff)
  then show "skipped \<noteq> [] \<Longrightarrow> ?thesis"
    by (simp add: bundle_head_def)
qed

lemma bundle_head_no_skipped:
  "concat (bundle_head now rel_root []) =
     ''=== BUNDLE GENERATED: '' @ now @ '' ==='' @ [CHR 0x0A]
     @ ''=== REL_ROOT: '' @ rel_root @ '' ==='' @ [CHR 0x0A] @ [CHR 0x0A]"
  by (simp add: bundle_head_def)

lemma sorted_fst_of_sorted_pairs:
  fixes xs :: "(string \<times> string) list"
  shows "sorted xs \<Longrightarrow> sorted (map fst xs)"
  by (induction xs) (auto simp: less_eq_prod_def)

lemma emitted_content_terminated:
  "body \<noteq> [] \<Longrightarrow>
   endswith (body @ (if body \<noteq> [] \<and> \<not> endswith body [CHR 0x0A] then [CHR 0x0A] else [])) [CHR 0x0A]"
  by (auto simp: endswith_def)

text \<open>
  Claim C4, as amended. The document is the head followed, in inventory order, by one group
  for each path that has content, and nothing for a path without content. A group is the
  begin marker with the path, the content, the end marker with the path and a blank line;
  content that is not empty is followed by a line terminator when it does not end with
  one, so it always ends with one, while empty content is emitted as nothing between the
  two markers. A skip block that is present lists the skipped paths in sorted order, each
  with its reason.
\<close>

theorem build_bundle_text_structure:
  "build_bundle_text now rel_root files contents skipped =
     concat (bundle_head now rel_root skipped) @ bundle_body group_emitted files contents
   \<and> (\<forall>path body. body \<noteq> [] \<longrightarrow>
        (\<exists>content. group_emitted path body = HEADER_FMT path @ content @ FOOTER_FMT path @ SECTION_GAP
             \<and> endswith content [CHR 0x0A]
             \<and> content = (if endswith body [CHR 0x0A] then body else body @ [CHR 0x0A])))
   \<and> (\<forall>path. group_emitted path [] = HEADER_FMT path @ FOOTER_FMT path @ SECTION_GAP)
   \<and> (skipped \<noteq> [] \<longrightarrow>
        concat (bundle_head now rel_root skipped) =
          ''=== BUNDLE GENERATED: '' @ now @ '' ==='' @ [CHR 0x0A]
          @ ''=== REL_ROOT: '' @ rel_root @ '' ==='' @ [CHR 0x0A]
          @ ''=== SKIPPED (auto-read) ==='' @ [CHR 0x0A]
          @ concat (map skip_line (sort skipped)) @ [CHR 0x0A] @ [CHR 0x0A]
        \<and> sorted (map fst (sort skipped))
        \<and> set (sort skipped) = set skipped
        \<and> length (sort skipped) = length skipped)"
proof (intro conjI allI impI)
  show "build_bundle_text now rel_root files contents skipped =
     concat (bundle_head now rel_root skipped) @ bundle_body group_emitted files contents"
    by (simp add: build_bundle_text_def bundle_foldl_concat)
next
  fix path body
  assume ne: "body \<noteq> ([]::string)"
  let ?c = "body @ (if body \<noteq> [] \<and> \<not> endswith body [CHR 0x0A] then [CHR 0x0A] else [])"
  have "group_emitted path body = HEADER_FMT path @ ?c @ FOOTER_FMT path @ SECTION_GAP"
    by (simp add: group_emitted_def)
  moreover have "endswith ?c [CHR 0x0A]" using ne by (rule emitted_content_terminated)
  moreover have "?c = (if endswith body [CHR 0x0A] then body else body @ [CHR 0x0A])"
    using ne by simp
  ultimately show "\<exists>content. group_emitted path body =
        HEADER_FMT path @ content @ FOOTER_FMT path @ SECTION_GAP
      \<and> endswith content [CHR 0x0A]
      \<and> content = (if endswith body [CHR 0x0A] then body else body @ [CHR 0x0A])"
    by blast
next
  fix path
  show "group_emitted path [] = HEADER_FMT path @ FOOTER_FMT path @ SECTION_GAP"
    by (simp add: group_emitted_def)
next
  assume "skipped \<noteq> []"
  then show "concat (bundle_head now rel_root skipped) =
          ''=== BUNDLE GENERATED: '' @ now @ '' ==='' @ [CHR 0x0A]
          @ ''=== REL_ROOT: '' @ rel_root @ '' ==='' @ [CHR 0x0A]
          @ ''=== SKIPPED (auto-read) ==='' @ [CHR 0x0A]
          @ concat (map skip_line (sort skipped)) @ [CHR 0x0A] @ [CHR 0x0A]"
    by (rule bundle_head_skipped)
next
  show "sorted (map fst (sort skipped))"
    by (rule sorted_fst_of_sorted_pairs) simp
next
  show "set (sort skipped) = set skipped" by simp
next
  show "length (sort skipped) = length skipped" by simp
qed

theorem build_bundle_text_structure_witness:
  "build_bundle_text ''T'' ''/proj'' [''a.py'', ''b.sql'', ''c.py'']
       [(''b.sql'', ''Y''), (''a.py'', ''X'' @ [CHR 0x0A])] [(''c.py'', ''not-found'')] =
     ''=== BUNDLE GENERATED: T ==='' @ [CHR 0x0A]
     @ ''=== REL_ROOT: /proj ==='' @ [CHR 0x0A]
     @ ''=== SKIPPED (auto-read) ==='' @ [CHR 0x0A]
     @ ''- c.py :: not-found'' @ [CHR 0x0A] @ [CHR 0x0A] @ [CHR 0x0A]
     @ ''=== FILE: a.py ==='' @ [CHR 0x0A] @ ''X'' @ [CHR 0x0A]
     @ ''=== END FILE: a.py ==='' @ [CHR 0x0A] @ [CHR 0x0A]
     @ ''=== FILE: b.sql ==='' @ [CHR 0x0A] @ ''Y'' @ [CHR 0x0A]
     @ ''=== END FILE: b.sql ==='' @ [CHR 0x0A] @ [CHR 0x0A]"
  using build_bundle_text_structure[of "''T''" "''/proj''" "[''a.py'', ''b.sql'', ''c.py'']"
      "[(''b.sql'', ''Y''), (''a.py'', ''X'' @ [CHR 0x0A])]" "[(''c.py'', ''not-found'')]"]
  by (simp add: bundle_body_def group_emitted_def skip_line_def HEADER_FMT_def FOOTER_FMT_def
        SECTION_GAP_def endswith_def)

text \<open>
  Claim C4 as stated fails for empty content: no line terminator is appended to it, so
  the document is not the one made of groups whose content always ends with a terminator.
\<close>

theorem build_bundle_text_empty_content_counterexample:
  "build_bundle_text ''T'' ''/proj'' [''a.py''] [(''a.py'', [])] [] \<noteq>
     concat (bundle_head ''T'' ''/proj'' []) @ bundle_body group_as_claimed [''a.py''] [(''a.py'', [])]"
  by (simp add: build_bundle_text_def bundle_head_def bundle_step_def bundle_body_def
        group_as_claimed_def HEADER_FMT_def FOOTER_FMT_def SECTION_GAP_def endswith_def)

subsection \<open>Direct read\<close>




















subsection \<open>The checkpoint: save and load\<close>

lemma cursor_default_eq:
  "(case dict_get_default kv ''cursor'' (JInt (- 1)) of
      JInt n \<Rightarrow> n | JBool b \<Rightarrow> (if b then 1 else 0) | _ \<Rightarrow> - 1) = cursor_or_default kv"
  by (simp add: dict_get_default_def cursor_or_default_def split: option.splits json.splits)

lemma filter_default_eq:
  "(case dict_get_default kv ''show_remaining_only'' (JBool False) of JBool b \<Rightarrow> b | _ \<Rightarrow> False)
     = filter_or_default kv"
  by (simp add: dict_get_default_def filter_or_default_def split: option.splits json.splits)

lemma mode_default_eq:
  "(case dict_get_default kv ''mode'' (JStr MODE_HYBRID) of
      JStr m \<Rightarrow> if m \<in> set MODES then m else MODE_HYBRID | _ \<Rightarrow> MODE_HYBRID) = mode_or_default kv"
  by (simp add: dict_get_default_def mode_or_default_def MODES_def split: option.splits json.splits)

lemma map_filter_kept:
  "List.map_filter (\<lambda>(k, v). case v of JStr t \<Rightarrow> if k \<in> set files then Some (k, t) else None
                                      | _ \<Rightarrow> None) cs = kept_contents files cs"
  by (induction cs) (auto simp: List.map_filter_simps kept_contents_def split: json.splits)

lemma clamp_eq: "max (- 1) (min c (int n - 1)) = clamp_cursor n c"
  by (auto simp: clamp_cursor_def max_def min_def)

lemma load_state_body_usable:
  assumes "usable_record kv files scan_dirs_abs rel_root"
    and "dict_get kv ''done'' = JList ds" and "dict_get kv ''contents'' = JObj cs"
  shows "load_state_body (JObj kv) files scan_dirs_abs rel_root =
     Inr (Some (map truthy ds, kept_contents files cs,
                clamp_cursor (length files) (cursor_or_default kv),
                filter_or_default kv, mode_or_default kv))"
  using assms
  by (simp add: load_state_body_def usable_record_def Let_def cursor_default_eq
      filter_default_eq mode_default_eq map_filter_kept clamp_eq)

lemma load_state_body_unusable:
  assumes "\<not> usable_record kv files scan_dirs_abs rel_root"
  shows "load_state_body (JObj kv) files scan_dirs_abs rel_root = Inr None"
proof -
  consider (a) "dict_get kv ''scan_dirs_abs'' \<noteq> JList (map JStr scan_dirs_abs)"
    | (b) "dict_get kv ''rel_root'' \<noteq> JStr rel_root"
    | (c) "dict_get kv ''files'' \<noteq> JList (map JStr files)"
    | (d) "\<not> (case dict_get kv ''done'' of JList ds \<Rightarrow> length ds = length files | _ \<Rightarrow> False)"
    | (e) "\<not> (case dict_get kv ''contents'' of JObj cs \<Rightarrow> True | _ \<Rightarrow> False)"
    using assms unfolding usable_record_def by blast
  then show ?thesis
  proof cases
    case a then show ?thesis by (simp add: load_state_body_def)
  next
    case b then show ?thesis by (simp add: load_state_body_def)
  next
    case c then show ?thesis by (simp add: load_state_body_def)
  next
    case d then show ?thesis
      by (cases "dict_get kv ''done''") (simp_all add: load_state_body_def Let_def)
  next
    case e
    have "(case dict_get kv ''contents'' of
             JObj cs \<Rightarrow> f cs | _ \<Rightarrow> Inr None) = (Inr None :: exn + loaded option)" for f
      using e by (cases "dict_get kv ''contents''") simp_all
    then show ?thesis
      by (cases "dict_get kv ''done''") (simp_all add: load_state_body_def Let_def)
  qed
qed

lemma load_state_body_not_object:
  assumes "\<forall>kv. state \<noteq> JObj kv"
  shows "load_state_body state files scan_dirs_abs rel_root = Inl AttributeError"
proof (cases state)
  case (JObj kv)
  then show ?thesis using assms by blast
qed (simp_all add: load_state_body_def)

lemma load_state_Some_iff:
  "load_state sf files scan_dirs_abs rel_root \<noteq> None \<longleftrightarrow>
     (\<exists>kv. sf = Some (Inr (JObj kv)) \<and> usable_record kv files scan_dirs_abs rel_root)"
proof
  assume ne: "load_state sf files scan_dirs_abs rel_root \<noteq> None"
  then obtain state where sf: "sf = Some (Inr state)"
    by (auto simp: load_state_def split: option.splits sum.splits)
  have "\<exists>kv. state = JObj kv"
  proof (rule ccontr)
    assume "\<not> (\<exists>kv. state = JObj kv)"
    then have "load_state_body state files scan_dirs_abs rel_root = Inl AttributeError"
      by (intro load_state_body_not_object) blast
    then show False using ne sf by (simp add: load_state_def)
  qed
  then obtain kv where kv: "state = JObj kv" by blast
  have "usable_record kv files scan_dirs_abs rel_root"
  proof (rule ccontr)
    assume "\<not> usable_record kv files scan_dirs_abs rel_root"
    from load_state_body_unusable[OF this] show False using ne sf kv by (simp add: load_state_def)
  qed
  then show "\<exists>kv. sf = Some (Inr (JObj kv)) \<and> usable_record kv files scan_dirs_abs rel_root"
    using sf kv by blast
next
  assume "\<exists>kv. sf = Some (Inr (JObj kv)) \<and> usable_record kv files scan_dirs_abs rel_root"
  then obtain kv where sf: "sf = Some (Inr (JObj kv))"
    and u: "usable_record kv files scan_dirs_abs rel_root" by blast
  from u obtain ds where ds: "dict_get kv ''done'' = JList ds"
    by (cases "dict_get kv ''done''") (simp_all add: usable_record_def)
  from u obtain cs where cs: "dict_get kv ''contents'' = JObj cs"
    by (cases "dict_get kv ''contents''") (simp_all add: usable_record_def)
  show "load_state sf files scan_dirs_abs rel_root \<noteq> None"
    using load_state_body_usable[OF u ds cs] sf by (simp add: load_state_def)
qed

lemma map_JStr_eq_iff: "map JStr xs = map JStr ys \<longleftrightarrow> xs = ys"
  by (simp add: inj_map_eq_map inj_on_def)

lemma truthy_JBool: "map truthy (map JBool dn) = dn" "map (truthy \<circ> JBool) dn = dn"
  by (induction dn) simp_all

lemma kept_contents_saved:
  "fst ` set contents \<subseteq> set files \<Longrightarrow>
   kept_contents files (map (\<lambda>(k, v). (k, JStr v)) contents) = contents"
  by (induction contents) (auto simp: kept_contents_def)

lemma state_json_fields:
  "state_json now files scan_dirs_abs rel_root dn contents cursor show_remaining_only mode = JObj kv \<Longrightarrow>
   dict_get kv ''scan_dirs_abs'' = JList (map JStr scan_dirs_abs)
   \<and> dict_get kv ''rel_root'' = JStr rel_root
   \<and> dict_get kv ''files'' = JList (map JStr files)
   \<and> dict_get kv ''done'' = JList (map JBool dn)
   \<and> dict_get kv ''contents'' = JObj (map (\<lambda>(k, v). (k, JStr v)) contents)
   \<and> cursor_or_default kv = cursor
   \<and> filter_or_default kv = show_remaining_only
   \<and> mode_or_default kv = (if mode \<in> set MODES then mode else MODE_HYBRID)"
  by (auto simp: state_json_def dict_get_def cursor_or_default_def filter_or_default_def
      mode_or_default_def)

lemma state_json_is_object:
  "\<exists>kv. state_json now files scan_dirs_abs rel_root dn contents cursor show_remaining_only mode = JObj kv"
  by (simp add: state_json_def)

lemma load_saved_same:
  assumes "length dn = length files" and "fst ` set contents \<subseteq> set files"
    and "- 1 \<le> cursor" and "cursor < int (length files)" and "mode \<in> set MODES"
  shows "load_state (Some (Inr (state_json now files scan_dirs_abs rel_root dn contents cursor
                                  show_remaining_only mode))) files scan_dirs_abs rel_root =
           Some (dn, contents, cursor, show_remaining_only, mode)"
proof -
  obtain kv where kv: "state_json now files scan_dirs_abs rel_root dn contents cursor
      show_remaining_only mode = JObj kv"
    using state_json_is_object by blast
  note f = state_json_fields[OF kv]
  have u: "usable_record kv files scan_dirs_abs rel_root"
    using f assms(1) by (simp add: usable_record_def)
  have c: "clamp_cursor (length files) cursor = cursor"
    using assms(3,4) by (simp add: clamp_cursor_def)
  show ?thesis
    unfolding kv load_state_def
    using load_state_body_usable[OF u, of "map JBool dn" "map (\<lambda>(k, v). (k, JStr v)) contents"] f
      assms(2,5) c
    by (simp add: truthy_JBool kept_contents_saved)
qed

lemma load_saved_other:
  assumes "files' \<noteq> files \<or> dirs' \<noteq> scan_dirs_abs \<or> root' \<noteq> rel_root"
  shows "load_state (Some (Inr (state_json now files scan_dirs_abs rel_root dn contents cursor
                                  show_remaining_only mode))) files' dirs' root' = None"
proof -
  obtain kv where kv: "state_json now files scan_dirs_abs rel_root dn contents cursor
      show_remaining_only mode = JObj kv"
    using state_json_is_object by blast
  note f = state_json_fields[OF kv]
  have "\<not> usable_record kv files' dirs' root'"
    using f assms by (auto simp: usable_record_def map_JStr_eq_iff)
  from load_state_body_unusable[OF this] show ?thesis
    unfolding kv load_state_def by simp
qed

text \<open>
  Claim C2. For a session state as the data model has it (as many flags as inventory
  entries, content only for inventory paths, a cursor that is unset or an index of the
  inventory, one of the three modes), saving it and loading with the same inventory, scan
  roots and common root returns exactly the saved flags, contents, cursor, filter
  preference and mode; loading the saved checkpoint with a different inventory, different
  scan roots or a different common root returns no state.
\<close>

theorem save_load_round_trip:
  assumes "length dn = length files" and "fst ` set contents \<subseteq> set files"
    and "- 1 \<le> cursor" and "cursor < int (length files)" and "mode \<in> set MODES"
  shows "\<exists>sf. save_state None now files scan_dirs_abs rel_root dn contents cursor
                 show_remaining_only mode = Inr sf
           \<and> load_state sf files scan_dirs_abs rel_root =
               Some (dn, contents, cursor, show_remaining_only, mode)
           \<and> (\<forall>files' dirs' root'.
                 files' \<noteq> files \<or> dirs' \<noteq> scan_dirs_abs \<or> root' \<noteq> rel_root \<longrightarrow>
                 load_state sf files' dirs' root' = None)"
proof -
  let ?sf = "Some (Inr (state_json now files scan_dirs_abs rel_root dn contents cursor
                          show_remaining_only mode))"
  have 1: "save_state None now files scan_dirs_abs rel_root dn contents cursor
             show_remaining_only mode = Inr ?sf"
    by (simp add: save_state_def)
  have 2: "load_state ?sf files scan_dirs_abs rel_root =
             Some (dn, contents, cursor, show_remaining_only, mode)"
    by (rule load_saved_same[OF assms])
  have 3: "\<forall>files' dirs' root'.
             files' \<noteq> files \<or> dirs' \<noteq> scan_dirs_abs \<or> root' \<noteq> rel_root \<longrightarrow>
             load_state ?sf files' dirs' root' = None"
    using load_saved_other by blast
  show ?thesis using 1 2 3 by blast
qed

theorem save_load_round_trip_witness:
  "load_state
     (Some (Inr (state_json ''T'' [''a.py'', ''b.sql''] [''/proj''] ''/proj'' [True, False]
                   [(''a.py'', ''X'')] 0 True MODE_PASTE)))
     [''a.py'', ''b.sql''] [''/proj''] ''/proj'' =
       Some ([True, False], [(''a.py'', ''X'')], 0, True, MODE_PASTE)
   \<and> load_state
     (Some (Inr (state_json ''T'' [''a.py'', ''b.sql''] [''/proj''] ''/proj'' [True, False]
                   [(''a.py'', ''X'')] 0 True MODE_PASTE)))
     [''a.py'', ''b.sql'', ''c.py''] [''/proj''] ''/proj'' = None"
proof -
  have h: "length [True, False] = length [''a.py'', ''b.sql'']"
    "fst ` set [(''a.py'', ''X'')] \<subseteq> set [''a.py'', ''b.sql'']"
    "- 1 \<le> (0::int)" "(0::int) < int (length [''a.py'', ''b.sql''])" "MODE_PASTE \<in> set MODES"
    by (simp_all add: MODES_def)
  from save_load_round_trip[OF h, of "''T''" "[''/proj'']" "''/proj''" True]
  obtain sf where sf: "save_state None ''T'' [''a.py'', ''b.sql''] [''/proj''] ''/proj''
         [True, False] [(''a.py'', ''X'')] 0 True MODE_PASTE = Inr sf"
    and l: "load_state sf [''a.py'', ''b.sql''] [''/proj''] ''/proj'' =
         Some ([True, False], [(''a.py'', ''X'')], 0, True, MODE_PASTE)"
    and o: "\<forall>files' dirs' root'.
         files' \<noteq> [''a.py'', ''b.sql''] \<or> dirs' \<noteq> [''/proj''] \<or> root' \<noteq> ''/proj'' \<longrightarrow>
         load_state sf files' dirs' root' = None"
    by blast
  have o': "load_state sf [''a.py'', ''b.sql'', ''c.py''] [''/proj''] ''/proj'' = None"
    using o by simp
  show ?thesis using sf l o' by (simp add: save_state_def)
qed

text \<open>
  Claim C3, as amended. \<^verbatim>\<open>load_state\<close> returns no state exactly when the checkpoint file is
  absent, cannot be read or parsed, does not hold an object, or holds a record that is not
  usable: other scan roots, common root or inventory, a \<^verbatim>\<open>done\<close> field that is missing, not
  a list or not as long as the inventory, a \<^verbatim>\<open>contents\<close> field that is missing or not a
  mapping. A usable record gives a state: the elements of \<^verbatim>\<open>done\<close> by their truth value, the
  entries of \<^verbatim>\<open>contents\<close> that have a string value and an inventory path as key, the cursor
  (-1 when missing or not an integer) brought into the range from -1 to the last index, the
  filter (false when missing or not a boolean) and the mode (hybrid when missing or unknown).
\<close>

theorem load_state_fail_soft:
  "(load_state sf files scan_dirs_abs rel_root \<noteq> None \<longleftrightarrow>
      (\<exists>kv. sf = Some (Inr (JObj kv)) \<and> usable_record kv files scan_dirs_abs rel_root))
   \<and> (\<forall>kv ds cs.
        sf = Some (Inr (JObj kv)) \<and> usable_record kv files scan_dirs_abs rel_root
          \<and> dict_get kv ''done'' = JList ds \<and> dict_get kv ''contents'' = JObj cs \<longrightarrow>
        load_state sf files scan_dirs_abs rel_root =
          Some (map truthy ds, kept_contents files cs,
                clamp_cursor (length files) (cursor_or_default kv),
                filter_or_default kv, mode_or_default kv))"
proof (intro conjI allI impI)
  show "load_state sf files scan_dirs_abs rel_root \<noteq> None \<longleftrightarrow>
      (\<exists>kv. sf = Some (Inr (JObj kv)) \<and> usable_record kv files scan_dirs_abs rel_root)"
    by (rule load_state_Some_iff)
next
  fix kv ds cs
  assume h: "sf = Some (Inr (JObj kv)) \<and> usable_record kv files scan_dirs_abs rel_root
          \<and> dict_get kv ''done'' = JList ds \<and> dict_get kv ''contents'' = JObj cs"
  then have "load_state_body (JObj kv) files scan_dirs_abs rel_root =
     Inr (Some (map truthy ds, kept_contents files cs,
                clamp_cursor (length files) (cursor_or_default kv),
                filter_or_default kv, mode_or_default kv))"
    by (intro load_state_body_usable) simp_all
  then show "load_state sf files scan_dirs_abs rel_root =
          Some (map truthy ds, kept_contents files cs,
                clamp_cursor (length files) (cursor_or_default kv),
                filter_or_default kv, mode_or_default kv)"
    using h by (simp add: load_state_def)
qed

lemmas ex_record_eval =
  ex_partial_record_def usable_record_def dict_get_def kept_contents_def clamp_cursor_def
  cursor_or_default_def filter_or_default_def mode_or_default_def MODES_def MODE_HYBRID_def
  MODE_PASTE_def MODE_AUTO_def

theorem load_state_fail_soft_witness:
  "load_state (Some (Inr ex_partial_record)) [''a.py'', ''b.sql''] [''/proj''] ''/proj'' =
     Some ([True, False], [(''a.py'', ''X'')], - 1, False, ''hybrid'')
   \<and> load_state (Some (Inr ex_partial_record)) [''a.py''] [''/proj''] ''/proj'' = None"
proof -
  have 1: "load_state (Some (Inr ex_partial_record)) [''a.py'', ''b.sql''] [''/proj''] ''/proj'' =
     Some ([True, False], [(''a.py'', ''X'')], - 1, False, ''hybrid'')"
    using load_state_fail_soft[of "Some (Inr ex_partial_record)" "[''a.py'', ''b.sql'']"
        "[''/proj'']" "''/proj''"]
    by (simp add: ex_record_eval)
  have "\<not> (\<exists>kv. Some (Inr ex_partial_record) = Some (Inr (JObj kv))
                \<and> usable_record kv [''a.py''] [''/proj''] ''/proj'')"
    by (simp add: ex_record_eval)
  then have 2: "load_state (Some (Inr ex_partial_record)) [''a.py''] [''/proj''] ''/proj'' = None"
    using load_state_fail_soft[of "Some (Inr ex_partial_record)" "[''a.py'']"
        "[''/proj'']" "''/proj''"]
    by blast
  show ?thesis using 1 2 by blast
qed

text \<open>
  Claim C3 as stated fails: a record without a cursor, with a filter that is not a boolean
  and with an unknown mode is not treated as absent; a state with the defaults is returned.
\<close>

theorem load_state_defaults_counterexample:
  "load_state (Some (Inr ex_partial_record)) [''a.py'', ''b.sql''] [''/proj''] ''/proj'' =
     Some ([True, False], [(''a.py'', ''X'')], - 1, False, MODE_HYBRID)"
  by (simp add: load_state_def load_state_body_def ex_partial_record_def dict_get_def
      dict_get_default_def List.map_filter_simps MODES_def MODE_HYBRID_def MODE_PASTE_def
      MODE_AUTO_def)

subsection \<open>Input, prompts and the fallback after a failed direct read\<close>

lemma io_only_refl: "io_only s s"
proof -
  have "s = s\<lparr>s_stdin := s_stdin s, s_out := s_out s\<rparr>" by simp
  then show ?thesis unfolding io_only_def by blast
qed

lemma io_only_trans:
  assumes "io_only s s1" and "io_only s1 s2"
  shows "io_only s s2"
proof -
  obtain i out where 1: "s1 = s\<lparr>s_stdin := i, s_out := out\<rparr>"
    using assms(1) unfolding io_only_def by blast
  obtain j out' where 2: "s2 = s1\<lparr>s_stdin := j, s_out := out'\<rparr>"
    using assms(2) unfolding io_only_def by blast
  have "s2 = s\<lparr>s_stdin := j, s_out := out'\<rparr>" unfolding 2 1 by simp
  then show ?thesis unfolding io_only_def by blast
qed

lemma io_only_emit: "io_only s (emit ev s)"
proof -
  have "emit ev s = s\<lparr>s_stdin := s_stdin s, s_out := s_out s @ [ev]\<rparr>" by (simp add: emit_def)
  then show ?thesis unfolding io_only_def by blast
qed

lemma io_only_fields:
  assumes "io_only s s'"
  shows "s_files s' = s_files s" "s_scan_dirs_abs s' = s_scan_dirs_abs s"
    "s_rel_root s' = s_rel_root s" "s_done s' = s_done s" "s_contents s' = s_contents s"
    "s_cursor s' = s_cursor s" "s_show_remaining_only s' = s_show_remaining_only s"
    "s_mode s' = s_mode s" "s_next_action_override s' = s_next_action_override s"
    "s_state_file s' = s_state_file s"
  using assms unfolding io_only_def by auto

lemma strip_snoc_space: "isspace c \<Longrightarrow> strip (xs @ [c]) = strip xs"
proof (cases "\<forall>x\<in>set xs. isspace x")
  case True
  assume "isspace c"
  then have d: "dropWhile isspace (xs @ [c]) = []" "dropWhile isspace xs = []"
    using True by (simp_all add: dropWhile_eq_Nil_conv)
  show ?thesis unfolding strip_def d by simp
next
  case False
  assume c: "isspace c"
  obtain x where "x \<in> set xs" "\<not> isspace x" using False by blast
  then have "dropWhile isspace (xs @ [c]) = dropWhile isspace xs @ [c]"
    by (rule dropWhile_append1)
  then show ?thesis using c by (simp add: strip_def)
qed

lemma strip_chomp: "strip (if endswith l [CHR 0x0A] then butlast l else l) = strip l"
proof (cases "endswith l [CHR 0x0A]")
  case False
  then show ?thesis by simp
next
  case True
  then have "l \<noteq> []" "last l = CHR 0x0A"
    by (auto simp: endswith_def last_conv_nth nth_via_drop Suc_le_eq)
  then have l: "l = butlast l @ [CHR 0x0A]" by (metis append_butlast_last_id)
  have "strip (butlast l @ [CHR 0x0A]) = strip (butlast l)"
    by (rule strip_snoc_space) (simp add: isspace_def)
  then show ?thesis using True l by simp
qed

lemma readline_eq:
  "readline s = (case s_stdin s of [] \<Rightarrow> [] | l # ls \<Rightarrow> l, s\<lparr>s_stdin := drop 1 (s_stdin s)\<rparr>)"
  by (cases "s_stdin s") (simp_all add: readline_def)

lemma py_input_eq:
  "py_input prompt s =
     (case s_stdin s of
        [] \<Rightarrow> None
      | l # ls \<Rightarrow> if l = [] then None else Some (if endswith l [CHR 0x0A] then butlast l else l),
      s\<lparr>s_stdin := drop 1 (s_stdin s), s_out := s_out s @ [prompt]\<rparr>)"
  by (cases "s_stdin s") (simp_all add: py_input_def readline_eq emit_def)

lemma ask_yes_no_eq:
  "ask_yes_no prompt True s =
     (answers_yes (s_stdin s), s\<lparr>s_stdin := drop 1 (s_stdin s), s_out := s_out s @ [prompt]\<rparr>)"
proof (cases "s_stdin s")
  case Nil
  then show ?thesis by (simp add: ask_yes_no_def py_input_eq answers_yes_def)
next
  case (Cons l ls)
  show ?thesis
  proof (cases "l = []")
    case True
    then show ?thesis using Cons
      by (simp add: ask_yes_no_def py_input_eq answers_yes_def strip_def lower_def)
  next
    case False
    then show ?thesis using Cons
      by (simp add: ask_yes_no_def py_input_eq answers_yes_def strip_chomp Let_def)
  qed
qed

lemma read_cmd_eq:
  "read_cmd s =
     (case s_stdin s of [] \<Rightarrow> ''q'' | l # ls \<Rightarrow> if l = [] then ''q'' else strip l,
      s\<lparr>s_stdin := drop 1 (s_stdin s), s_out := s_out s @ [Prompt_cmd]\<rparr>)"
  by (cases "s_stdin s") (simp_all add: read_cmd_def py_input_eq strip_chomp)

lemma io_only_ask: "io_only s (snd (ask_yes_no prompt True s))"
  unfolding ask_yes_no_eq io_only_def by auto

lemma io_only_read_cmd: "io_only s (snd (read_cmd s))"
  unfolding read_cmd_eq io_only_def by auto

lemma io_only_capture: "io_only s (snd (capture_section path index n_total s))"
  unfolding capture_section_def io_only_def by (auto split: prod.splits)



end
